theory Spec2Isabelle
  imports Complex_Main "HOL-Library.AList" "HOL-Library.Char_ord" "HOL-Library.List_Lexorder"
begin

section \<open>Values, documents and errors\<close>

text \<open>
  Both modules of the repository (bulkUpload.py and productCategorization.py) work on
  Python dictionaries that are stored as documents of a MongoDB database. A Python float
  is an IEEE double: a finite double is represented by the rational number it denotes.
  Strings are lists of characters, a character standing for a code point below 256.
\<close>

datatype pyfloat = Finite rat | NaN | PosInf | NegInf

datatype pyval =
    PStr string
  | PInt int
  | PFloat pyfloat
  | PBool bool
  | PList "pyval list"
  | POid nat
  | PNone

text \<open>A dictionary keeps its keys in insertion order: an association list.\<close>

type_synonym doc = "(string \<times> pyval) list"

datatype error =
    KeyError string
  | ValueError
  | TypeError
  | AttributeError
  | OverflowError
  | InvalidId
  | WriteError
  | OperationFailure
  | ReadError

text \<open>\<open>d[k]\<close> raises KeyError on a missing key; \<open>d[k] = v\<close> replaces the value in place
  or appends the new key.\<close>

definition dict_get :: "doc \<Rightarrow> string \<Rightarrow> error + pyval" where
  "dict_get d k = (case map_of d k of None \<Rightarrow> Inl (KeyError k) | Some v \<Rightarrow> Inr v)"

definition dict_set :: "doc \<Rightarrow> string \<Rightarrow> pyval \<Rightarrow> doc" where
  "dict_set d k v = AList.update k v d"

section \<open>The document store\<close>

text \<open>
  The database \<open>ondc_products\<close> holds the two collections \<open>products\<close> and
  \<open>categories\<close>. The storage layer assigns the \<open>_id\<close> of a document on insert;
  \<open>next_oid\<close> is the next identity it hands out.
\<close>

record store =
  products_collection :: "doc list"
  categories_collection :: "doc list"
  next_oid :: nat

text \<open>
  The query documents the two modules build. \<open>QEq f v\<close> is \<open>{f: v}\<close>,
  \<open>QRegex f p\<close> is \<open>{f: {"$regex": p, "$options": "i"}}\<close>, \<open>QIn f vs\<close> is
  \<open>{f: {"$in": vs}}\<close>, \<open>QOr qs\<close> is \<open>{"$or": qs}\<close> and \<open>QAll\<close> is \<open>{}\<close>.
\<close>

datatype query =
    QAll
  | QEq string pyval
  | QRegex string string
  | QIn string "pyval list"
  | QOr "query list"

text \<open>Numbers of different BSON types are equal when their values are.\<close>

fun bson_eq :: "pyval \<Rightarrow> pyval \<Rightarrow> bool" where
  "bson_eq (PInt a) (PFloat (Finite q)) = (of_int a = q)"
| "bson_eq (PFloat (Finite q)) (PInt a) = (of_int a = q)"
| "bson_eq x y = (x = y)"

text \<open>A stored value matches a queried value when it is equal to it, or is an array
  with an element equal to it.\<close>

definition value_matches :: "pyval \<Rightarrow> pyval \<Rightarrow> bool" where
  "value_matches x v =
     (bson_eq x v \<or> (case x of PList xs \<Rightarrow> list_ex (\<lambda>y. bson_eq y v) xs | _ \<Rightarrow> False))"

text \<open>A compiled case-insensitive regular expression is a predicate on strings; it is
  applied to a string field, or to the string elements of an array field.\<close>

definition regex_matches :: "(string \<Rightarrow> bool) \<Rightarrow> pyval \<Rightarrow> bool" where
  "regex_matches m x =
     (case x of
        PStr s \<Rightarrow> m s
      | PList xs \<Rightarrow> list_ex (\<lambda>y. case y of PStr s \<Rightarrow> m s | _ \<Rightarrow> False) xs
      | _ \<Rightarrow> False)"

text \<open>
  Modelled from the spec: find-with-filter of the storage layer (pattern match, set
  membership, array-element match), evaluated on one document. The regular-expression
  engine belongs to the storage layer: \<open>rx p\<close> is the compiled pattern \<open>p\<close>
  under option \<open>i\<close>, or \<open>None\<close> when \<open>p\<close> is not a regular expression,
  which fails the whole query. A missing field matches only the queried value
  \<open>None\<close>.
\<close>

fun query_ok :: "(string \<Rightarrow> (string \<Rightarrow> bool) option) \<Rightarrow> query \<Rightarrow> bool" where
  "query_ok rx QAll = True"
| "query_ok rx (QEq f v) = True"
| "query_ok rx (QRegex f p) = (rx p \<noteq> None)"
| "query_ok rx (QIn f vs) = True"
| "query_ok rx (QOr qs) = list_all (query_ok rx) qs"

fun matches :: "(string \<Rightarrow> (string \<Rightarrow> bool) option) \<Rightarrow> query \<Rightarrow> doc \<Rightarrow> bool" where
  "matches rx QAll d = True"
| "matches rx (QEq f v) d =
     (case map_of d f of None \<Rightarrow> v = PNone | Some x \<Rightarrow> value_matches x v)"
| "matches rx (QRegex f p) d =
     (case rx p of
        None \<Rightarrow> False
      | Some m \<Rightarrow> (case map_of d f of None \<Rightarrow> False | Some x \<Rightarrow> regex_matches m x))"
| "matches rx (QIn f vs) d =
     (case map_of d f of
        None \<Rightarrow> PNone \<in> set vs
      | Some x \<Rightarrow> list_ex (value_matches x) vs)"
| "matches rx (QOr qs) d = list_ex (\<lambda>q. matches rx q d) qs"

definition collection_find ::
  "(string \<Rightarrow> (string \<Rightarrow> bool) option) \<Rightarrow> query \<Rightarrow> doc list \<Rightarrow> error + doc list" where
  "collection_find rx q ds =
     (if query_ok rx q then Inr (filter (matches rx q) ds) else Inl OperationFailure)"

text \<open>\<open>find_one\<close> with an equality filter: the first matching document, if any.\<close>

definition find_one_eq :: "string \<Rightarrow> pyval \<Rightarrow> doc list \<Rightarrow> doc option" where
  "find_one_eq f v ds =
     (case filter (matches (\<lambda>p. None) (QEq f v)) ds of [] \<Rightarrow> None | d # _ \<Rightarrow> Some d)"

section \<open>Schema validation\<close>

text \<open>
  The validators are \<open>$jsonSchema\<close> documents: a list of required fields, and for
  some fields a BSON type, a minimum and a type for the elements of an array. A Python
  integer is stored as a 32-bit \<open>int\<close> when it fits and as a 64-bit \<open>long\<close>
  otherwise; \<open>number\<close> covers both and \<open>double\<close>.
\<close>

datatype bson_type = BString | BNumber | BInt | BArray

record property =
  bsonType :: bson_type
  minimum :: "int option"
  items :: "bson_type option"

record json_schema =
  required :: "string list"
  properties :: "(string \<times> property) list"

definition has_bson_type :: "bson_type \<Rightarrow> pyval \<Rightarrow> bool" where
  "has_bson_type t v =
     (case t of
        BString \<Rightarrow> (case v of PStr s \<Rightarrow> True | _ \<Rightarrow> False)
      | BNumber \<Rightarrow>
          (case v of
             PInt n \<Rightarrow> - (2 ^ 63) \<le> n \<and> n < 2 ^ 63
           | PFloat f \<Rightarrow> True
           | _ \<Rightarrow> False)
      | BInt \<Rightarrow> (case v of PInt n \<Rightarrow> - (2 ^ 31) \<le> n \<and> n < 2 ^ 31 | _ \<Rightarrow> False)
      | BArray \<Rightarrow> (case v of PList xs \<Rightarrow> True | _ \<Rightarrow> False))"

text \<open>\<open>minimum\<close> constrains numbers only; NaN is not above any minimum.\<close>

definition meets_minimum :: "int \<Rightarrow> pyval \<Rightarrow> bool" where
  "meets_minimum m v =
     (case v of
        PInt n \<Rightarrow> m \<le> n
      | PFloat f \<Rightarrow>
          (case f of Finite q \<Rightarrow> of_int m \<le> q | PosInf \<Rightarrow> True | _ \<Rightarrow> False)
      | _ \<Rightarrow> True)"

definition property_ok :: "property \<Rightarrow> pyval \<Rightarrow> bool" where
  "property_ok p v =
     (has_bson_type (bsonType p) v
      \<and> (case minimum p of None \<Rightarrow> True | Some m \<Rightarrow> meets_minimum m v)
      \<and> (case items p of
           None \<Rightarrow> True
         | Some t \<Rightarrow> (case v of PList xs \<Rightarrow> list_all (has_bson_type t) xs | _ \<Rightarrow> True)))"

definition validates :: "json_schema \<Rightarrow> doc \<Rightarrow> bool" where
  "validates S d =
     (list_all (\<lambda>k. map_of d k \<noteq> None) (required S)
      \<and> list_all (\<lambda>(k, p). case map_of d k of None \<Rightarrow> True | Some v \<Rightarrow> property_ok p v)
          (properties S))"

section \<open>bulkUpload.py: the category store\<close>

text \<open>\<open>categories_schema\<close>: the field \<open>name\<close> is required and is a string.\<close>

definition categories_schema :: json_schema where
  "categories_schema =
     \<lparr>required = [''name''],
      properties = [(''name'', \<lparr>bsonType = BString, minimum = None, items = None\<rparr>)]\<rparr>"

text \<open>
  Modelled from the spec: \<open>insert_one\<close> of the storage layer, on the collection
  \<open>categories\<close>. A write that violates the validator of the collection is rejected
  with an error; otherwise the document is stored under a fresh \<open>_id\<close>.
\<close>

definition insert_one_category :: "doc \<Rightarrow> store \<Rightarrow> error + store" where
  "insert_one_category d st =
     (if validates categories_schema d
      then Inr (st\<lparr>categories_collection :=
                    categories_collection st @ [dict_set d ''_id'' (POid (next_oid st))],
                  next_oid := Suc (next_oid st)\<rparr>)
      else Inl WriteError)"

text \<open>\<open>get_all_categories\<close> of bulkUpload.py: \<open>cat['name']\<close> for every stored
  category, in storage order.\<close>

fun those_sum :: "('e + 'a) list \<Rightarrow> 'e + 'a list" where
  "those_sum [] = Inr []"
| "those_sum (x # xs) =
     (case x of
        Inl e \<Rightarrow> Inl e
      | Inr v \<Rightarrow> (case those_sum xs of Inl e \<Rightarrow> Inl e | Inr vs \<Rightarrow> Inr (v # vs)))"

definition get_all_categories :: "store \<Rightarrow> error + pyval list" where
  "get_all_categories st = those_sum (map (\<lambda>cat. dict_get cat ''name'') (categories_collection st))"

text \<open>
  \<open>add_category\<close>: \<open>if not find_one({"name": category_name}): insert_one(...)\<close>.
  The result of \<open>find_one\<close> is falsy when it is \<open>None\<close> or an empty dictionary.
\<close>

definition add_category :: "pyval \<Rightarrow> store \<Rightarrow> error + store" where
  "add_category category_name st =
     (case find_one_eq ''name'' category_name (categories_collection st) of
        Some (x # xs) \<Rightarrow> Inr st
      | _ \<Rightarrow> insert_one_category [(''name'', category_name)] st)"

text \<open>The names of the stored Category records, one entry per record.\<close>

definition category_names :: "store \<Rightarrow> pyval list" where
  "category_names st =
     concat (map (\<lambda>d. case map_of d ''name'' of None \<Rightarrow> [] | Some v \<Rightarrow> [v])
       (categories_collection st))"

section \<open>bulkUpload.py: CSV ingestion\<close>

text \<open>
  An uploaded file has a name and a content. \<open>pd.read_csv\<close> turns the content into a
  data frame: the column names of the header row and one list of cells per data row,
  a cell being a string, an integer, a float or a Boolean.
\<close>

record uploaded_file =
  name :: string
  content :: string

record dataframe =
  columns :: "string list"
  rows :: "pyval list list"

text \<open>
  Library functions the module calls and does not define: the CSV parser of pandas, and
  the parsers behind Python's \<open>float(s)\<close> and \<open>int(s)\<close> on a string \<open>s\<close>
  (\<open>None\<close> where they raise ValueError).
\<close>

record pylib =
  read_csv :: "uploaded_file \<Rightarrow> error + dataframe"
  str_to_float :: "string \<Rightarrow> pyfloat option"
  str_to_int :: "string \<Rightarrow> int option"

definition bind_err :: "'e + 'a \<Rightarrow> ('a \<Rightarrow> 'e + 'b) \<Rightarrow> 'e + 'b" where
  "bind_err x f = (case x of Inl e \<Rightarrow> Inl e | Inr v \<Rightarrow> f v)"

definition required_columns :: "string list" where
  "required_columns = [''product_name'', ''description'', ''price'', ''quantity'', ''categories'']"

definition validate_csv :: "dataframe \<Rightarrow> bool" where
  "validate_csv df = list_all (\<lambda>col. col \<in> set (columns df)) required_columns"

text \<open>\<open>df.to_dict('records')\<close>: one dictionary per row, keyed by the column names.\<close>

definition to_dict_records :: "dataframe \<Rightarrow> doc list" where
  "to_dict_records df = map (\<lambda>r. zip (columns df) r) (rows df)"

text \<open>
  \<open>float(n)\<close> of an integer is the nearest double, ties to even, and raises
  OverflowError beyond the range of a double.
\<close>

fun bit_length :: "nat \<Rightarrow> nat" where
  "bit_length n = (if n = 0 then 0 else Suc (bit_length (n div 2)))"

declare bit_length.simps [simp del]

definition round_to_double :: "nat \<Rightarrow> nat" where
  "round_to_double a =
     (let e = bit_length a - 53; q = a div 2 ^ e; r = a mod 2 ^ e
      in if 2 * r > 2 ^ e \<or> (2 * r = 2 ^ e \<and> odd q) then (q + 1) * 2 ^ e else q * 2 ^ e)"

definition float_of_int :: "int \<Rightarrow> error + pyfloat" where
  "float_of_int n =
     (let m = round_to_double (nat \<bar>n\<bar>)
      in if 2 ^ 1024 \<le> m then Inl OverflowError else Inr (Finite (of_int (sgn n * int m))))"

definition py_float :: "pylib \<Rightarrow> pyval \<Rightarrow> error + pyfloat" where
  "py_float lib v =
     (case v of
        PStr s \<Rightarrow> (case str_to_float lib s of None \<Rightarrow> Inl ValueError | Some f \<Rightarrow> Inr f)
      | PInt n \<Rightarrow> float_of_int n
      | PFloat f \<Rightarrow> Inr f
      | PBool b \<Rightarrow> Inr (Finite (if b then 1 else 0))
      | _ \<Rightarrow> Inl TypeError)"

text \<open>\<open>int(x)\<close> truncates a float towards zero.\<close>

definition py_int :: "pylib \<Rightarrow> pyval \<Rightarrow> error + int" where
  "py_int lib v =
     (case v of
        PStr s \<Rightarrow> (case str_to_int lib s of None \<Rightarrow> Inl ValueError | Some n \<Rightarrow> Inr n)
      | PInt n \<Rightarrow> Inr n
      | PFloat f \<Rightarrow>
          (case f of
             Finite q \<Rightarrow> Inr (if 0 \<le> q then \<lfloor>q\<rfloor> else \<lceil>q\<rceil>)
           | NaN \<Rightarrow> Inl ValueError
           | _ \<Rightarrow> Inl OverflowError)
      | PBool b \<Rightarrow> Inr (if b then 1 else 0)
      | _ \<Rightarrow> Inl TypeError)"

text \<open>\<open>s.split(',')\<close> cuts at every comma and keeps empty pieces; \<open>s.strip()\<close>
  removes the white space at both ends.\<close>

fun split_on :: "char \<Rightarrow> string \<Rightarrow> string list" where
  "split_on c [] = [[]]"
| "split_on c (x # xs) =
     (if x = c then [] # split_on c xs
      else (case split_on c xs of [] \<Rightarrow> [[x]] | w # ws \<Rightarrow> (x # w) # ws))"

definition is_space :: "char \<Rightarrow> bool" where
  "is_space c = (of_char c \<in> set [9, 10, 11, 12, 13, 28, 29, 30, 31, 32, 133, 160 :: nat])"

definition strip :: "string \<Rightarrow> string" where
  "strip s = rev (dropWhile is_space (rev (dropWhile is_space s)))"

definition split_categories :: "pyval \<Rightarrow> error + pyval" where
  "split_categories v =
     (case v of
        PStr s \<Rightarrow> Inr (PList (map (\<lambda>cat. PStr (strip cat)) (split_on CHR '','' s)))
      | _ \<Rightarrow> Inl AttributeError)"

text \<open>The body of the loop of \<open>process_csv\<close>: the three assignments to one record.\<close>

definition normalize_product :: "pylib \<Rightarrow> doc \<Rightarrow> error + doc" where
  "normalize_product lib product =
     bind_err (dict_get product ''price'') (\<lambda>p.
     bind_err (py_float lib p) (\<lambda>f.
     bind_err (dict_get (dict_set product ''price'' (PFloat f)) ''quantity'') (\<lambda>q.
     bind_err (py_int lib q) (\<lambda>n.
     bind_err (dict_get (dict_set (dict_set product ''price'' (PFloat f)) ''quantity'' (PInt n))
         ''categories'') (\<lambda>c.
     bind_err (split_categories c) (\<lambda>cats.
     Inr (dict_set (dict_set (dict_set product ''price'' (PFloat f)) ''quantity'' (PInt n))
         ''categories'' cats)))))))"

text \<open>\<open>process_csv\<close> returns the records, \<open>None\<close> for a file that fails
  \<open>validate_csv\<close>, or raises at the first cell that does not coerce.\<close>

definition process_csv :: "pylib \<Rightarrow> uploaded_file \<Rightarrow> error + doc list option" where
  "process_csv lib file =
     bind_err (read_csv lib file) (\<lambda>df.
       if validate_csv df
       then bind_err (those_sum (map (normalize_product lib) (to_dict_records df)))
              (\<lambda>products. Inr (Some products))
       else Inr None)"

text \<open>
  The loop of \<open>main\<close> over the uploaded files. The state is
  \<open>(all_products, invalid_files)\<close>; \<open>if products\<close> holds for a non-empty list. The
  loop has no exception handler: an error of \<open>process_csv\<close> ends it.
\<close>

fun collect_files ::
  "pylib \<Rightarrow> uploaded_file list \<Rightarrow> doc list \<times> string list \<Rightarrow> error + doc list \<times> string list" where
  "collect_files lib [] acc = Inr acc"
| "collect_files lib (uploaded_file # fs) (all_products, invalid_files) =
     (case process_csv lib uploaded_file of
        Inl e \<Rightarrow> Inl e
      | Inr products \<Rightarrow>
          (case products of
             Some (p # ps) \<Rightarrow> collect_files lib fs (all_products @ p # ps, invalid_files)
           | _ \<Rightarrow> collect_files lib fs (all_products, invalid_files @ [name uploaded_file])))"

definition empty_store :: store where
  "empty_store = \<lparr>products_collection = [], categories_collection = [], next_oid = 0\<rparr>"

section \<open>bulkUpload.py: the product store\<close>

text \<open>\<open>product_schema\<close>, the validator of the collection \<open>products\<close>.\<close>

definition product_schema :: json_schema where
  "product_schema =
     \<lparr>required = [''product_name'', ''description'', ''price'', ''quantity'', ''categories''],
      properties =
        [(''product_name'', \<lparr>bsonType = BString, minimum = None, items = None\<rparr>),
         (''description'', \<lparr>bsonType = BString, minimum = None, items = None\<rparr>),
         (''price'', \<lparr>bsonType = BNumber, minimum = Some 0, items = None\<rparr>),
         (''quantity'', \<lparr>bsonType = BInt, minimum = Some 0, items = None\<rparr>),
         (''categories'', \<lparr>bsonType = BArray, minimum = None, items = Some BString\<rparr>)]\<rparr>"

text \<open>
  Modelled from the spec: \<open>insert_many\<close> of the storage layer, on the collection
  \<open>products\<close>. The spec gives it as an atomic batch: if any record of the batch
  violates the validator the whole insert fails and the store stays as it is; otherwise
  every record is stored, in order, each under a fresh \<open>_id\<close>, and the identities
  are returned. The store after the call is the first component of the result.
\<close>

definition insert_many_products :: "doc list \<Rightarrow> store \<Rightarrow> store \<times> (error + pyval list)" where
  "insert_many_products docs st =
     (if list_all (validates product_schema) docs
      then (st\<lparr>products_collection :=
                products_collection st
                @ map2 (\<lambda>d i. dict_set d ''_id'' (POid i)) docs
                    [next_oid st ..< next_oid st + length docs],
              next_oid := next_oid st + length docs\<rparr>,
            Inr (map POid [next_oid st ..< next_oid st + length docs]))
      else (st, Inl WriteError))"

text \<open>\<open>save_products\<close>: \<open>len(result.inserted_ids)\<close> of the batch insert; an error
  of the insert passes through.\<close>

definition save_products :: "doc list \<Rightarrow> store \<Rightarrow> store \<times> (error + nat)" where
  "save_products prods st =
     (case insert_many_products prods st of
        (st', result) \<Rightarrow> (st', bind_err result (\<lambda>inserted_ids. Inr (length inserted_ids))))"

text \<open>
  The upload of \<open>main\<close>, inside its \<open>try\<close>: for every product and every category
  of its list \<open>add_category\<close>, then \<open>save_products\<close>. A \<open>for\<close> loop runs over the
  elements of a list or the characters of a string. An error leaves the loops with the
  store as it is by then, and is reported by the \<open>except\<close> branch.
\<close>

definition iter_values :: "pyval \<Rightarrow> error + pyval list" where
  "iter_values v =
     (case v of
        PList xs \<Rightarrow> Inr xs
      | PStr s \<Rightarrow> Inr (map (\<lambda>c. PStr [c]) s)
      | _ \<Rightarrow> Inl TypeError)"

fun add_categories :: "pyval list \<Rightarrow> store \<Rightarrow> error \<times> store + store" where
  "add_categories [] st = Inr st"
| "add_categories (category # cs) st =
     (case add_category category st of
        Inl e \<Rightarrow> Inl (e, st)
      | Inr st1 \<Rightarrow> add_categories cs st1)"

fun register_categories :: "doc list \<Rightarrow> store \<Rightarrow> error \<times> store + store" where
  "register_categories [] st = Inr st"
| "register_categories (product # ps) st =
     (case bind_err (dict_get product ''categories'') iter_values of
        Inl e \<Rightarrow> Inl (e, st)
      | Inr cs \<Rightarrow>
          (case add_categories cs st of
             Inl x \<Rightarrow> Inl x
           | Inr st1 \<Rightarrow> register_categories ps st1))"

definition upload_all_products :: "doc list \<Rightarrow> store \<Rightarrow> store \<times> (error + nat)" where
  "upload_all_products all_products st =
     (case register_categories all_products st of
        Inl (e, st1) \<Rightarrow> (st1, Inl e)
      | Inr st1 \<Rightarrow> save_products all_products st1)"

text \<open>The category labels of a product record: the elements of its list \<open>categories\<close>.\<close>

definition category_labels :: "doc \<Rightarrow> pyval list" where
  "category_labels product =
     (case map_of product ''categories'' of Some (PList xs) \<Rightarrow> xs | _ \<Rightarrow> [])"

text \<open>\<open>search_products\<close>: \<open>find\<close> with the \<open>$or\<close> of two case-insensitive regular
  expressions and a membership test on the field \<open>category\<close>.\<close>

definition search_products ::
  "(string \<Rightarrow> (string \<Rightarrow> bool) option) \<Rightarrow> string \<Rightarrow> store \<Rightarrow> error + doc list" where
  "search_products rx query st =
     collection_find rx
       (QOr [QRegex ''product_name'' query, QRegex ''description'' query,
             QIn ''category'' [PStr query]])
       (products_collection st)"

section \<open>productCategorization.py\<close>

text \<open>
  The second module works on the collection \<open>products\<close> only. Its functions
  \<open>get_all_categories\<close> and \<open>main\<close> share their names with functions of
  bulkUpload.py; here they carry the suffix \<open>_pc\<close>.

  \<open>ObjectId(x)\<close> is a constructor of the bson library, not of the repository: it
  is the parameter \<open>object_id\<close> of \<open>update_product_category\<close>, giving the value
  the filter compares \<open>_id\<close> with, or the error the constructor raises.
\<close>







section \<open>Predicates of the specification\<close>

text \<open>A row coerces when its price and its quantity are accepted by \<open>float\<close> and
  \<open>int\<close> and its categories cell is a string.\<close>

definition coercible :: "pylib \<Rightarrow> doc \<Rightarrow> bool" where
  "coercible lib r =
     (case (map_of r ''price'', map_of r ''quantity'', map_of r ''categories'') of
        (Some p, Some q, Some (PStr s)) \<Rightarrow> \<not> isl (py_float lib p) \<and> \<not> isl (py_int lib q)
      | _ \<Rightarrow> False)"

text \<open>
  The record \<open>d\<close> is the normalized form of the row \<open>r\<close>: the price is the float
  coercion of the row's price, the quantity the int coercion of the row's quantity, the
  categories the pieces of the row's categories string between commas, each stripped, in
  order and with empty pieces kept; every other column is as in the row.
\<close>

definition normalized :: "pylib \<Rightarrow> doc \<Rightarrow> doc \<Rightarrow> bool" where
  "normalized lib r d =
     ((\<exists>p f. map_of r ''price'' = Some p \<and> py_float lib p = Inr f
          \<and> map_of d ''price'' = Some (PFloat f))
      \<and> (\<exists>q n. map_of r ''quantity'' = Some q \<and> py_int lib q = Inr n
          \<and> map_of d ''quantity'' = Some (PInt n))
      \<and> (\<exists>s. map_of r ''categories'' = Some (PStr s)
          \<and> map_of d ''categories''
              = Some (PList (map (\<lambda>cat. PStr (strip cat)) (split_on CHR '','' s))))
      \<and> (\<forall>k. k \<notin> {''price'', ''quantity'', ''categories''} \<longrightarrow> map_of d k = map_of r k))"

text \<open>
  A record violates the declared constraints of a product: a required field is
  missing, a declared field has a value of another type than declared, or the price or
  the quantity is a negative number.
\<close>

definition missing_field :: "doc \<Rightarrow> bool" where
  "missing_field d = list_ex (\<lambda>k. map_of d k = None) (required product_schema)"

definition wrong_type :: "doc \<Rightarrow> bool" where
  "wrong_type d =
     list_ex (\<lambda>(k, p). case map_of d k of
                          None \<Rightarrow> False
                        | Some v \<Rightarrow> \<not> has_bson_type (bsonType p) v) (properties product_schema)"

definition negative_number :: "doc \<Rightarrow> bool" where
  "negative_number d =
     list_ex (\<lambda>k. case map_of d k of
                    Some (PInt n) \<Rightarrow> n < 0
                  | Some (PFloat (Finite q)) \<Rightarrow> q < 0
                  | Some (PFloat NegInf) \<Rightarrow> True
                  | _ \<Rightarrow> False) [''price'', ''quantity'']"

definition violates :: "doc \<Rightarrow> bool" where
  "violates d = (missing_field d \<or> wrong_type d \<or> negative_number d)"

text \<open>The records a file contributes to a batch: those \<open>process_csv\<close> returns.\<close>

definition file_records :: "pylib \<Rightarrow> uploaded_file \<Rightarrow> doc list" where
  "file_records lib file = (case process_csv lib file of Inr (Some ps) \<Rightarrow> ps | _ \<Rightarrow> [])"

text \<open>A row with a price or a quantity that is a string no number can be read from.\<close>

definition non_numeric :: "pylib \<Rightarrow> doc \<Rightarrow> bool" where
  "non_numeric lib r =
     ((case map_of r ''price'' of Some (PStr s) \<Rightarrow> str_to_float lib s = None | _ \<Rightarrow> False)
      \<or> (case map_of r ''quantity'' of Some (PStr s) \<Rightarrow> str_to_int lib s = None | _ \<Rightarrow> False))"

text \<open>
  The three conditions of the search, on one record: the pattern \<open>m\<close> matches the
  field \<open>f\<close>, and the term is the record's category or a member of it.
\<close>

definition field_matches_pattern :: "(string \<Rightarrow> bool) \<Rightarrow> string \<Rightarrow> doc \<Rightarrow> bool" where
  "field_matches_pattern m f d = (case map_of d f of None \<Rightarrow> False | Some x \<Rightarrow> regex_matches m x)"

definition category_is :: "string \<Rightarrow> doc \<Rightarrow> bool" where
  "category_is term d =
     (case map_of d ''category'' of
        Some (PStr s) \<Rightarrow> s = term
      | Some (PList xs) \<Rightarrow> PStr term \<in> set xs
      | _ \<Rightarrow> False)"

definition search_condition :: "(string \<Rightarrow> bool) \<Rightarrow> string \<Rightarrow> doc \<Rightarrow> bool" where
  "search_condition m term d =
     (field_matches_pattern m ''product_name'' d
      \<or> field_matches_pattern m ''description'' d
      \<or> category_is term d)"

text \<open>Case-insensitive substring search, the meaning of a pattern of letters, digits
  and spaces under option \<open>i\<close>. Characters are compared by the code point of their
  lower-case form.\<close>

definition lower :: "char \<Rightarrow> nat" where
  "lower c = (if 65 \<le> (of_char c :: nat) \<and> (of_char c :: nat) \<le> 90
              then of_char c + 32 else of_char c)"

fun starts_with :: "string \<Rightarrow> string \<Rightarrow> bool" where
  "starts_with [] s = True"
| "starts_with (c # cs) [] = False"
| "starts_with (c # cs) (x # xs) = (lower c = lower x \<and> starts_with cs xs)"

fun ci_contains :: "string \<Rightarrow> string \<Rightarrow> bool" where
  "ci_contains term [] = starts_with term []"
| "ci_contains term (x # xs) = (starts_with term (x # xs) \<or> ci_contains term xs)"

definition is_plain :: "char \<Rightarrow> bool" where
  "is_plain c =
     (let n = of_char c :: nat
      in (48 \<le> n \<and> n \<le> 57) \<or> (65 \<le> n \<and> n \<le> 90) \<or> (97 \<le> n \<and> n \<le> 122) \<or> n = 32)"

section \<open>Example inputs\<close>

text \<open>
  A library for the examples: it reads six files (an empty cell is read as NaN), and its number parsers accept the
  unsigned decimal numerals, which Python's \<open>int\<close> and \<open>float\<close> accept as well, and
  reject every other string.
\<close>

fun digits_value :: "string \<Rightarrow> nat \<Rightarrow> nat option" where
  "digits_value [] acc = Some acc"
| "digits_value (c # cs) acc =
     (if 48 \<le> (of_char c :: nat) \<and> (of_char c :: nat) \<le> 57
      then digits_value cs (10 * acc + (of_char c - 48))
      else None)"

definition decimal :: "string \<Rightarrow> nat option" where
  "decimal s = (if s = [] then None else digits_value s 0)"

definition widget_frame :: dataframe where
  "widget_frame =
     \<lparr>columns = [''product_name'', ''description'', ''price'', ''quantity'', ''categories''],
      rows = [[PStr ''Widget'', PStr ''desc'', PInt 10, PInt 5, PStr ''a, b'']]\<rparr>"

definition gadget_frame :: dataframe where
  "gadget_frame =
     \<lparr>columns = [''product_name'', ''description'', ''price'', ''quantity'', ''categories''],
      rows = [[PStr ''Gadget'', PStr ''desc'', PStr ''abc'', PInt 1, PStr ''x'']]\<rparr>"

definition crate_frame :: dataframe where
  "crate_frame =
     \<lparr>columns = [''product_name'', ''description'', ''price'', ''quantity'', ''categories''],
      rows = [[PStr ''Crate'', PStr ''desc'', PInt 4, PStr ''many'', PStr ''x'']]\<rparr>"

definition blank_frame :: dataframe where
  "blank_frame =
     \<lparr>columns = [''product_name'', ''description'', ''price'', ''quantity'', ''categories''],
      rows = [[PStr ''Blank'', PStr ''desc'', PInt 4, PInt 1, PFloat NaN]]\<rparr>"

definition thing_frame :: dataframe where
  "thing_frame = \<lparr>columns = [''product_name'', ''price''], rows = [[PStr ''Thing'', PInt 3]]\<rparr>"

definition toy_frame :: dataframe where
  "toy_frame =
     \<lparr>columns = [''product_name'', ''description'', ''price'', ''quantity'', ''categories'',
                 ''category''],
      rows = [[PStr ''Ball'', PStr ''red'', PInt 2, PInt 7, PStr ''games'', PStr ''toys'']]\<rparr>"

definition widget_file :: uploaded_file where
  "widget_file = \<lparr>name = ''widget.csv'', content = ''widget''\<rparr>"

definition gadget_file :: uploaded_file where
  "gadget_file = \<lparr>name = ''gadget.csv'', content = ''gadget''\<rparr>"

definition crate_file :: uploaded_file where
  "crate_file = \<lparr>name = ''crate.csv'', content = ''crate''\<rparr>"

definition blank_file :: uploaded_file where
  "blank_file = \<lparr>name = ''blank.csv'', content = ''blank''\<rparr>"

definition thing_file :: uploaded_file where
  "thing_file = \<lparr>name = ''thing.csv'', content = ''thing''\<rparr>"

definition toy_file :: uploaded_file where
  "toy_file = \<lparr>name = ''toy.csv'', content = ''toy''\<rparr>"

definition example_lib :: pylib where
  "example_lib =
     \<lparr>read_csv = (\<lambda>f. if content f = ''widget'' then Inr widget_frame
                       else if content f = ''gadget'' then Inr gadget_frame
                       else if content f = ''thing'' then Inr thing_frame
                       else if content f = ''toy'' then Inr toy_frame
                       else if content f = ''crate'' then Inr crate_frame
                       else if content f = ''blank'' then Inr blank_frame
                       else Inl ReadError),
      str_to_float = (\<lambda>s. map_option (\<lambda>n. Finite (of_nat n)) (decimal s)),
      str_to_int = (\<lambda>s. map_option int (decimal s))\<rparr>"

definition widget_record :: doc where
  "widget_record =
     [(''product_name'', PStr ''Widget''), (''description'', PStr ''desc''),
      (''price'', PFloat (Finite 10)), (''quantity'', PInt 5),
      (''categories'', PList [PStr ''a'', PStr ''b''])]"

text \<open>A regular-expression engine for the examples: it compiles the patterns of
  letters, digits and spaces, and no others.\<close>

definition example_rx :: "string \<Rightarrow> (string \<Rightarrow> bool) option" where
  "example_rx p = (if list_all is_plain p then Some (ci_contains p) else None)"

definition toy_record :: doc where
  "toy_record =
     [(''product_name'', PStr ''Ball''), (''description'', PStr ''red''),
      (''price'', PFloat (Finite 2)), (''quantity'', PInt 7),
      (''categories'', PList [PStr ''games'']), (''category'', PStr ''toys'')]"

definition cheap_record :: doc where
  "cheap_record =
     [(''product_name'', PStr ''Refund''), (''description'', PStr ''desc''),
      (''price'', PFloat (Finite (- 1))), (''quantity'', PInt 5),
      (''categories'', PList [PStr ''a''])]"

definition widget_store :: store where
  "widget_store =
     \<lparr>products_collection = [widget_record @ [(''_id'', POid 0)]],
      categories_collection = [], next_oid = 1\<rparr>"









section \<open>Properties of the category store\<close>

lemma map_of_dict_set:
  "map_of (dict_set d k v) = (map_of d)(k \<mapsto> v)"
  by (simp add: dict_set_def AList.update_conv')

lemma matches_name_iff:
  "matches rx (QEq ''name'' (PStr s)) d \<longleftrightarrow>
     (\<exists>x. map_of d ''name'' = Some x \<and> value_matches x (PStr s))"
  by (simp split: option.splits)

lemma value_matches_PStr [simp]:
  "value_matches (PStr t) (PStr s) \<longleftrightarrow> t = s"
  by (auto simp: value_matches_def)

lemma validates_categories:
  "validates categories_schema d \<longleftrightarrow> (\<exists>s. map_of d ''name'' = Some (PStr s))"
  by (auto simp: validates_def categories_schema_def property_ok_def has_bson_type_def
      split: option.splits pyval.splits)

lemma schema_name_match:
  "validates categories_schema d \<Longrightarrow>
     matches rx (QEq ''name'' (PStr s)) d \<longleftrightarrow> map_of d ''name'' = Some (PStr s)"
  by (auto simp: validates_categories)

lemma schema_names:
  "list_all (validates categories_schema) ds \<Longrightarrow>
     PStr s \<in> set (concat (map (\<lambda>d. case map_of d ''name'' of None \<Rightarrow> [] | Some v \<Rightarrow> [v]) ds))
       \<longleftrightarrow> filter (matches rx (QEq ''name'' (PStr s))) ds \<noteq> []"
proof (induction ds)
  case Nil
  then show ?case by simp
next
  case (Cons d ds)
  then have d: "validates categories_schema d" and ds: "list_all (validates categories_schema) ds"
    by simp_all
  from d obtain t where t: "map_of d ''name'' = Some (PStr t)"
    by (auto simp: validates_categories)
  show ?case
    using Cons.IH [OF ds] schema_name_match [OF d, of rx s] t by auto
qed

lemma find_one_eq_None:
  "list_all (validates categories_schema) (categories_collection st) \<Longrightarrow>
     find_one_eq ''name'' (PStr s) (categories_collection st) = None
       \<longleftrightarrow> PStr s \<notin> set (category_names st)"
  unfolding find_one_eq_def category_names_def
  using schema_names [of "categories_collection st" s "\<lambda>p. None"]
  by (auto split: list.splits)

lemma find_one_eq_nonempty:
  "find_one_eq ''name'' (PStr s) ds = Some d \<Longrightarrow> d \<noteq> []"
proof -
  assume a: "find_one_eq ''name'' (PStr s) ds = Some d"
  then obtain r where "filter (matches (\<lambda>p. None) (QEq ''name'' (PStr s))) ds = d # r"
    by (auto simp: find_one_eq_def split: list.splits)
  then have "d \<in> set (filter (matches (\<lambda>p. None) (QEq ''name'' (PStr s))) ds)"
    by (metis list.set_intros(1))
  then have "matches (\<lambda>p. None) (QEq ''name'' (PStr s)) d"
    by simp
  then show "d \<noteq> []"
    by auto
qed

lemma distinct_count_one:
  "distinct xs \<Longrightarrow> x \<in> set xs \<Longrightarrow> count_list xs x = 1"
  by (induction xs) auto

lemma add_category_present:
  assumes "list_all (validates categories_schema) (categories_collection st)"
    and "PStr s \<in> set (category_names st)"
  shows "add_category (PStr s) st = Inr st"
proof -
  from assms find_one_eq_None [of st s]
  obtain d where d: "find_one_eq ''name'' (PStr s) (categories_collection st) = Some d"
    by (cases "find_one_eq ''name'' (PStr s) (categories_collection st)") auto
  with find_one_eq_nonempty [OF d] show ?thesis
    by (cases d) (simp_all add: add_category_def)
qed

lemma add_category_absent:
  assumes "list_all (validates categories_schema) (categories_collection st)"
    and "PStr s \<notin> set (category_names st)"
  shows "add_category (PStr s) st =
     Inr (st\<lparr>categories_collection := categories_collection st @ [[(''name'', PStr s), (''_id'', POid (next_oid st))]],
              next_oid := Suc (next_oid st)\<rparr>)"
  using assms find_one_eq_None [of st s]
  by (simp add: add_category_def insert_one_category_def validates_categories dict_set_def)

text \<open>
  C7. Under sequential execution and on a store whose Category records conform to
  \<open>categories_schema\<close> and have pairwise different names, \<open>add_category\<close> returns,
  keeps both properties, leaves the store untouched when a record of that exact name
  exists and appends one record \<open>{name}\<close> otherwise; a second call with the same name
  changes nothing, and exactly one stored record then has that name.
\<close>

theorem add_category_keeps_names_unique:
  assumes "list_all (validates categories_schema) (categories_collection st)"
    and "distinct (category_names st)"
  shows "\<exists>st1. add_category (PStr x) st = Inr st1
     \<and> list_all (validates categories_schema) (categories_collection st1)
     \<and> distinct (category_names st1)
     \<and> (PStr x \<in> set (category_names st) \<longrightarrow> st1 = st)
     \<and> (PStr x \<notin> set (category_names st) \<longrightarrow>
          categories_collection st1 = categories_collection st @ [[(''name'', PStr x), (''_id'', POid (next_oid st))]])
     \<and> add_category (PStr x) st1 = Inr st1
     \<and> count_list (category_names st1) (PStr x) = 1"
proof (cases "PStr x \<in> set (category_names st)")
  case True
  have "count_list (category_names st) (PStr x) = 1"
    using True assms(2) by (simp add: distinct_count_one)
  with True assms add_category_present [OF assms(1) True] show ?thesis
    by simp
next
  case False
  let ?st1 = "st\<lparr>categories_collection := categories_collection st @ [[(''name'', PStr x), (''_id'', POid (next_oid st))]],
              next_oid := Suc (next_oid st)\<rparr>"
  have step: "add_category (PStr x) st = Inr ?st1"
    by (rule add_category_absent [OF assms(1) False])
  have sch: "list_all (validates categories_schema) (categories_collection ?st1)"
    using assms(1) by (simp add: validates_categories)
  have names: "category_names ?st1 = category_names st @ [PStr x]"
    by (simp add: category_names_def)
  have dist: "distinct (category_names ?st1)"
    using assms(2) False by (simp add: names)
  have mem: "PStr x \<in> set (category_names ?st1)"
    by (simp add: names)
  have again: "add_category (PStr x) ?st1 = Inr ?st1"
    by (rule add_category_present [OF sch mem])
  have cnt: "count_list (category_names ?st1) (PStr x) = 1"
    using dist mem by (simp add: distinct_count_one)
  show ?thesis
    using step sch dist again cnt False by (intro exI [of _ ?st1]) simp
qed

theorem add_category_keeps_names_unique_witness:
  "add_category (PStr ''X'') empty_store
     = Inr \<lparr>products_collection = [], categories_collection = [[(''name'', PStr ''X''), (''_id'', POid 0)]], next_oid = 1\<rparr>
   \<and> add_category (PStr ''X'')
        \<lparr>products_collection = [], categories_collection = [[(''name'', PStr ''X''), (''_id'', POid 0)]], next_oid = 1\<rparr>
     = Inr \<lparr>products_collection = [], categories_collection = [[(''name'', PStr ''X''), (''_id'', POid 0)]], next_oid = 1\<rparr>
   \<and> count_list (category_names
        \<lparr>products_collection = [], categories_collection = [[(''name'', PStr ''X''), (''_id'', POid 0)]], next_oid = 1\<rparr>)
        (PStr ''X'') = 1"
proof -
  have h1: "list_all (validates categories_schema) (categories_collection empty_store)"
    by (simp add: empty_store_def)
  have h2: "distinct (category_names empty_store)"
    by (simp add: empty_store_def category_names_def)
  have h3: "PStr ''X'' \<notin> set (category_names empty_store)"
    by (simp add: empty_store_def category_names_def)
  from add_category_keeps_names_unique [OF h1 h2, of "''X''"] h3
  obtain st1 where a: "add_category (PStr ''X'') empty_store = Inr st1"
    and b: "categories_collection st1 = categories_collection empty_store @ [[(''name'', PStr ''X''), (''_id'', POid (next_oid empty_store))]]"
    and c: "add_category (PStr ''X'') st1 = Inr st1"
    and d: "count_list (category_names st1) (PStr ''X'') = 1"
    by blast
  have e: "add_category (PStr ''X'') empty_store
     = Inr \<lparr>products_collection = [], categories_collection = [[(''name'', PStr ''X''), (''_id'', POid 0)]], next_oid = 1\<rparr>"
    by (simp add: add_category_def find_one_eq_def empty_store_def insert_one_category_def
        validates_categories dict_set_def)
  from a e have "st1 = \<lparr>products_collection = [], categories_collection = [[(''name'', PStr ''X''), (''_id'', POid 0)]], next_oid = 1\<rparr>"
    by simp
  with a c d show ?thesis
    by simp
qed

section \<open>Properties of the CSV ingestion\<close>

lemma those_sum_map_Inr:
  "those_sum (map f xs) = Inr ys \<longleftrightarrow> list_all2 (\<lambda>x y. f x = Inr y) xs ys"
proof (induction xs arbitrary: ys)
  case Nil
  then show ?case by auto
next
  case (Cons x xs)
  show ?case
  proof (cases "f x")
    case (Inl e)
    then show ?thesis by (auto simp: list_all2_Cons1)
  next
    case (Inr v)
    then show ?thesis
      using Cons.IH by (cases "those_sum (map f xs)") (auto simp: list_all2_Cons1)
  qed
qed

lemma dict_get_Inr: "dict_get d k = Inr v \<longleftrightarrow> map_of d k = Some v"
  by (simp add: dict_get_def split: option.splits)

lemma dict_get_set_other: "k \<noteq> k' \<Longrightarrow> dict_get (dict_set d k v) k' = dict_get d k'"
  by (simp add: dict_get_def map_of_dict_set)

lemma normalize_coercible:
  assumes "coercible lib r"
  shows "\<exists>d. normalize_product lib r = Inr d \<and> normalized lib r d"
proof -
  from assms obtain p q s f n where
    p: "map_of r ''price'' = Some p" and q: "map_of r ''quantity'' = Some q"
    and s: "map_of r ''categories'' = Some (PStr s)"
    and f: "py_float lib p = Inr f" and n: "py_int lib q = Inr n"
    by (auto simp: coercible_def isl_def split: option.splits pyval.splits) (metis sum.exhaust)
  let ?cats = "PList (map (\<lambda>cat. PStr (strip cat)) (split_on CHR '','' s))"
  let ?d = "dict_set (dict_set (dict_set r ''price'' (PFloat f)) ''quantity'' (PInt n)) ''categories'' ?cats"
  have "normalize_product lib r = Inr ?d"
    using p q s f n
    by (simp add: normalize_product_def bind_err_def dict_get_def map_of_dict_set
        split_categories_def)
  moreover have "normalized lib r ?d"
    using p q s f n by (simp add: normalized_def map_of_dict_set)
  ultimately show ?thesis by blast
qed

lemma list_all_ex_list_all2:
  "list_all P xs \<Longrightarrow> (\<And>x. P x \<Longrightarrow> \<exists>y. Q x y) \<Longrightarrow> \<exists>ys. list_all2 Q xs ys"
proof (induction xs)
  case Nil
  then show ?case by simp
next
  case (Cons x xs)
  from Cons.prems(1) have px: "P x" and pxs: "list_all P xs" by simp_all
  from Cons.prems(2) [OF px] obtain y where y: "Q x y" by blast
  from Cons.IH [OF pxs Cons.prems(2)] obtain ys where ys: "list_all2 Q xs ys" by blast
  from y ys have "Q x y" "list_all2 Q xs ys" .
  then have "list_all2 Q (x # xs) (y # ys)" by simp
  then show ?case by blast
qed

lemma process_csv_coercible:
  assumes "read_csv lib file = Inr df"
    and "validate_csv df"
    and "list_all (coercible lib) (to_dict_records df)"
  shows "\<exists>products. process_csv lib file = Inr (Some products)
     \<and> length products = length (rows df)
     \<and> list_all2 (normalized lib) (to_dict_records df) products"
proof -
  from list_all_ex_list_all2 [OF assms(3), of "\<lambda>r d. normalize_product lib r = Inr d \<and> normalized lib r d"]
    normalize_coercible
  obtain ds where ds: "list_all2 (\<lambda>r d. normalize_product lib r = Inr d \<and> normalized lib r d)
      (to_dict_records df) ds"
    by blast
  then have a: "list_all2 (\<lambda>r d. normalize_product lib r = Inr d) (to_dict_records df) ds"
    and b: "list_all2 (normalized lib) (to_dict_records df) ds"
    by (auto elim: list_all2_mono)
  from a have "those_sum (map (normalize_product lib) (to_dict_records df)) = Inr ds"
    by (simp add: those_sum_map_Inr)
  then have "process_csv lib file = Inr (Some ds)"
    using assms(1,2) by (simp add: process_csv_def bind_err_def)
  moreover from b have "length ds = length (rows df)"
    by (auto dest: list_all2_lengthD simp: to_dict_records_def)
  ultimately show ?thesis using b by blast
qed

lemma validate_csv_missing:
  "\<not> validate_csv df \<longleftrightarrow> (\<exists>col \<in> set required_columns. col \<notin> set (columns df))"
  by (simp add: validate_csv_def list_all_iff)

lemma process_csv_missing_column:
  assumes "read_csv lib file = Inr df"
    and "\<exists>col \<in> set required_columns. col \<notin> set (columns df)"
  shows "process_csv lib file = Inr None"
  using assms validate_csv_missing [of df] by (simp add: process_csv_def bind_err_def)

lemma collect_files_no_raise:
  "\<forall>g \<in> set fs. \<not> isl (process_csv lib g) \<Longrightarrow>
     collect_files lib fs (ps, bad) =
       Inr (ps @ concat (map (file_records lib) fs),
            bad @ map name (filter (\<lambda>g. file_records lib g = []) fs))"
proof (induction fs arbitrary: ps bad)
  case Nil
  then show ?case by simp
next
  case (Cons f fs)
  then obtain r where r: "process_csv lib f = Inr r"
    by (cases "process_csv lib f") auto
  have rest: "\<forall>g \<in> set fs. \<not> isl (process_csv lib g)"
    using Cons.prems by simp
  show ?case
  proof (cases r)
    case None
    then show ?thesis
      using r Cons.IH [OF rest] by (simp add: file_records_def)
  next
    case (Some xs)
    then show ?thesis
      using r Cons.IH [OF rest] by (cases xs) (simp_all add: file_records_def)
  qed
qed

lemma collect_files_raise:
  "\<forall>g \<in> set fs1. \<not> isl (process_csv lib g) \<Longrightarrow> process_csv lib f = Inl e \<Longrightarrow>
     collect_files lib (fs1 @ f # fs2) (ps, bad) = Inl e"
proof (induction fs1 arbitrary: ps bad)
  case Nil
  then show ?case by simp
next
  case (Cons g fs1)
  then obtain r where r: "process_csv lib g = Inr r"
    by (cases "process_csv lib g") auto
  have rest: "\<forall>g \<in> set fs1. \<not> isl (process_csv lib g)"
    using Cons.prems by simp
  show ?case
    using r Cons.IH [OF rest Cons.prems(2)]
    by (cases r) (simp_all split: list.splits)
qed

lemma those_sum_map_Inl:
  "x \<in> set xs \<Longrightarrow> isl (f x) \<Longrightarrow> isl (those_sum (map f xs))"
  by (induction xs) (auto split: sum.splits)

lemma normalize_non_numeric:
  "non_numeric lib r \<Longrightarrow> isl (normalize_product lib r)"
  by (auto simp: non_numeric_def normalize_product_def bind_err_def dict_get_def
      map_of_dict_set py_float_def py_int_def
      split: option.splits pyval.splits sum.splits)

lemma process_csv_non_numeric:
  assumes "read_csv lib file = Inr df" and "validate_csv df"
    and "r \<in> set (to_dict_records df)" and "non_numeric lib r"
  shows "isl (process_csv lib file)"
proof -
  have "isl (those_sum (map (normalize_product lib) (to_dict_records df)))"
    using those_sum_map_Inl [of r "to_dict_records df" "normalize_product lib"]
      assms(3) normalize_non_numeric [OF assms(4)] by blast
  then show ?thesis
    using assms(1,2) by (auto simp: process_csv_def bind_err_def split: sum.splits)
qed

lemma example_widget:
  "process_csv example_lib widget_file = Inr (Some [widget_record])"
  by (simp add: process_csv_def example_lib_def widget_file_def widget_frame_def bind_err_def
      validate_csv_def required_columns_def to_dict_records_def normalize_product_def
      dict_get_def dict_set_def py_float_def py_int_def split_categories_def strip_def
      is_space_def float_of_int_def round_to_double_def bit_length.simps Let_def
      widget_record_def)

lemma example_gadget:
  "process_csv example_lib gadget_file = Inl ValueError"
  by (simp add: process_csv_def example_lib_def gadget_file_def gadget_frame_def bind_err_def
      validate_csv_def required_columns_def to_dict_records_def normalize_product_def
      dict_get_def dict_set_def py_float_def decimal_def)

lemma example_thing:
  "process_csv example_lib thing_file = Inr None"
  by (simp add: process_csv_def example_lib_def thing_file_def thing_frame_def bind_err_def
      validate_csv_def required_columns_def)

text \<open>
  C1, as the code has it. For a file that parses, has the five required columns and
  whose rows coerce (price and quantity accepted by \<open>float\<close> and \<open>int\<close>,
  categories a string), \<open>process_csv\<close> returns one record per data row, in order,
  each the normalized form of its row: price the float coercion, quantity the int
  coercion, categories the stripped pieces of the categories string.
\<close>

theorem process_csv_normalizes_rows:
  assumes "read_csv lib file = Inr df"
    and "validate_csv df"
    and "list_all (coercible lib) (to_dict_records df)"
  shows "\<exists>products. process_csv lib file = Inr (Some products)
     \<and> length products = length (rows df)
     \<and> list_all2 (normalized lib) (to_dict_records df) products"
  using assms by (rule process_csv_coercible)

theorem process_csv_normalizes_rows_witness:
  "process_csv example_lib widget_file = Inr (Some [widget_record])
   \<and> normalized example_lib
       [(''product_name'', PStr ''Widget''), (''description'', PStr ''desc''),
        (''price'', PInt 10), (''quantity'', PInt 5), (''categories'', PStr ''a, b'')]
       widget_record"
proof -
  have r: "read_csv example_lib widget_file = Inr widget_frame"
    by (simp add: example_lib_def widget_file_def)
  have v: "validate_csv widget_frame"
    by (simp add: validate_csv_def required_columns_def widget_frame_def)
  have rows: "to_dict_records widget_frame =
      [[(''product_name'', PStr ''Widget''), (''description'', PStr ''desc''),
        (''price'', PInt 10), (''quantity'', PInt 5), (''categories'', PStr ''a, b'')]]"
    by (simp add: to_dict_records_def widget_frame_def)
  have c: "list_all (coercible example_lib) (to_dict_records widget_frame)"
    by (simp add: rows coercible_def py_float_def py_int_def float_of_int_def
        round_to_double_def bit_length.simps Let_def)
  from process_csv_normalizes_rows [OF r v c] obtain products where
    p: "process_csv example_lib widget_file = Inr (Some products)"
    and n: "list_all2 (normalized example_lib) (to_dict_records widget_frame) products"
    by blast
  from p example_widget have "products = [widget_record]" by simp
  with p n rows show ?thesis by simp
qed

lemma example_crate:
  "process_csv example_lib crate_file = Inl ValueError"
  by (simp add: process_csv_def example_lib_def crate_file_def crate_frame_def bind_err_def
      validate_csv_def required_columns_def to_dict_records_def normalize_product_def
      dict_get_def dict_set_def py_float_def py_int_def decimal_def float_of_int_def
      round_to_double_def bit_length.simps Let_def)

lemma example_blank:
  "process_csv example_lib blank_file = Inl AttributeError"
  by (simp add: process_csv_def example_lib_def blank_file_def blank_frame_def bind_err_def
      validate_csv_def required_columns_def to_dict_records_def normalize_product_def
      dict_get_def dict_set_def py_float_def py_int_def split_categories_def float_of_int_def
      round_to_double_def bit_length.simps Let_def)

text \<open>
  The claim C1 as stated fails: three files that parse and have the five required
  columns, with the price \<open>abc\<close>, the quantity \<open>many\<close> and an empty categories
  cell, make \<open>process_csv\<close> raise instead of returning records.
\<close>

theorem process_csv_raises_counterexample:
  "validate_csv gadget_frame \<and> process_csv example_lib gadget_file = Inl ValueError
   \<and> validate_csv crate_frame \<and> process_csv example_lib crate_file = Inl ValueError
   \<and> validate_csv blank_frame \<and> process_csv example_lib blank_file = Inl AttributeError"
  by (simp add: example_gadget example_crate example_blank)
     (simp add: validate_csv_def required_columns_def gadget_frame_def crate_frame_def
        blank_frame_def)

lemma collect_files_acc:
  "collect_files lib fs (ps, bad) =
     (case collect_files lib fs ([], []) of
        Inl e \<Rightarrow> Inl e
      | Inr (p, b) \<Rightarrow> Inr (ps @ p, bad @ b))"
proof (induction fs arbitrary: ps bad)
  case Nil
  then show ?case by simp
next
  case (Cons f fs)
  show ?case
  proof (cases "process_csv lib f")
    case (Inl e)
    then show ?thesis by simp
  next
    case (Inr r)
    have skip: "collect_files lib fs (ps, bad @ [name f]) =
        (case collect_files lib fs ([], [name f]) of
           Inl e \<Rightarrow> Inl e
         | Inr (p, b) \<Rightarrow> Inr (ps @ p, bad @ b))"
      using Cons.IH [of ps "bad @ [name f]"] Cons.IH [of "[]" "[name f]"]
      by (auto split: sum.splits)
    have keep: "\<And>x xs. collect_files lib fs (ps @ x # xs, bad) =
        (case collect_files lib fs (x # xs, []) of
           Inl e \<Rightarrow> Inl e
         | Inr (p, b) \<Rightarrow> Inr (ps @ p, bad @ b))"
    proof -
      fix x xs
      show "collect_files lib fs (ps @ x # xs, bad) =
        (case collect_files lib fs (x # xs, []) of
           Inl e \<Rightarrow> Inl e
         | Inr (p, b) \<Rightarrow> Inr (ps @ p, bad @ b))"
        using Cons.IH [of "ps @ x # xs" bad] Cons.IH [of "x # xs" "[]"]
        by (auto split: sum.splits)
    qed
    show ?thesis
    proof (cases r)
      case None
      with Inr skip show ?thesis by simp
    next
      case (Some xs)
      with Inr skip keep show ?thesis by (cases xs) simp_all
    qed
  qed
qed

lemma collect_files_append:
  "collect_files lib (fs1 @ fs2) acc =
     (case collect_files lib fs1 acc of
        Inl e \<Rightarrow> Inl e
      | Inr acc1 \<Rightarrow> collect_files lib fs2 acc1)"
proof (induction fs1 arbitrary: acc)
  case Nil
  then show ?case by simp
next
  case (Cons f fs1)
  obtain ps bad where acc: "acc = (ps, bad)" by (cases acc)
  show ?case
    unfolding acc using Cons.IH
    by (auto split: sum.splits option.splits list.splits)
qed

lemma collect_files_skip:
  assumes "process_csv lib file = Inr None"
  shows "collect_files lib (fs1 @ file # fs2) acc =
     (case collect_files lib (fs1 @ fs2) acc of
        Inl e \<Rightarrow> Inl e
      | Inr (ps, bad) \<Rightarrow>
          (case collect_files lib fs1 acc of
             Inl e \<Rightarrow> Inl e
           | Inr (ps1, bad1) \<Rightarrow> Inr (ps, bad1 @ name file # drop (length bad1) bad)))"
proof (cases "collect_files lib fs1 acc")
  case (Inl e)
  then show ?thesis
    by (simp add: collect_files_append)
next
  case (Inr acc1)
  obtain ps1 bad1 where acc1: "acc1 = (ps1, bad1)" by (cases acc1)
  have a: "collect_files lib (fs1 @ file # fs2) acc = collect_files lib fs2 (ps1, bad1 @ [name file])"
    using Inr acc1 assms by (simp add: collect_files_append)
  have b: "collect_files lib (fs1 @ fs2) acc = collect_files lib fs2 (ps1, bad1)"
    using Inr acc1 by (simp add: collect_files_append)
  show ?thesis
    unfolding a b
    using collect_files_acc [of lib fs2 ps1 "bad1 @ [name file]"]
      collect_files_acc [of lib fs2 ps1 bad1] Inr acc1
    by (auto split: sum.splits)
qed

text \<open>
  C2. A file that parses and lacks one of the five required columns makes
  \<open>process_csv\<close> return \<open>None\<close>, not an error. In a batch the file changes nothing
  but the list of invalid files: the loop of \<open>main\<close> ends in the same error, or with
  the same collected products, as the batch without the file, and lists the name of the
  file among the invalid files; when no other file raises, the collected products are
  the records of the other files, all of them and in order.
\<close>

theorem missing_column_file_is_skipped:
  assumes "read_csv lib file = Inr df"
    and "\<exists>col \<in> set required_columns. col \<notin> set (columns df)"
  shows "process_csv lib file = Inr None
     \<and> (collect_files lib (fs1 @ fs2) ([], []) = Inl e \<longrightarrow>
          collect_files lib (fs1 @ file # fs2) ([], []) = Inl e)
     \<and> (collect_files lib (fs1 @ fs2) ([], []) = Inr (ps, bad) \<longrightarrow>
          (\<exists>invalid_files.
             collect_files lib (fs1 @ file # fs2) ([], []) = Inr (ps, invalid_files)
             \<and> set invalid_files = insert (name file) (set bad)))
     \<and> ((\<forall>g \<in> set (fs1 @ fs2). \<not> isl (process_csv lib g)) \<longrightarrow>
          (\<exists>invalid_files.
             collect_files lib (fs1 @ file # fs2) ([], [])
               = Inr (concat (map (file_records lib) (fs1 @ fs2)), invalid_files)
             \<and> name file \<in> set invalid_files))"
proof -
  have none: "process_csv lib file = Inr None"
    using assms(1,2) by (rule process_csv_missing_column)
  note skip = collect_files_skip [OF none, of fs1 fs2 "([], [])"]
  have a: "collect_files lib (fs1 @ fs2) ([], []) = Inl e \<longrightarrow>
          collect_files lib (fs1 @ file # fs2) ([], []) = Inl e"
    using skip by simp
  have b: "collect_files lib (fs1 @ fs2) ([], []) = Inr (ps, bad) \<longrightarrow>
          (\<exists>invalid_files.
             collect_files lib (fs1 @ file # fs2) ([], []) = Inr (ps, invalid_files)
             \<and> set invalid_files = insert (name file) (set bad))"
  proof
    assume r: "collect_files lib (fs1 @ fs2) ([], []) = Inr (ps, bad)"
    then obtain ps1 bad1 where r1: "collect_files lib fs1 ([], []) = Inr (ps1, bad1)"
      by (auto simp: collect_files_append split: sum.splits)
    with r have r2: "collect_files lib fs2 (ps1, bad1) = Inr (ps, bad)"
      by (simp add: collect_files_append)
    from r2 collect_files_acc [of lib fs2 ps1 bad1]
    obtain p b where bad: "bad = bad1 @ b"
      by (auto split: sum.splits)
    from skip r r1 have "collect_files lib (fs1 @ file # fs2) ([], [])
        = Inr (ps, bad1 @ name file # drop (length bad1) bad)"
      by simp
    moreover have "set (bad1 @ name file # drop (length bad1) bad) = insert (name file) (set bad)"
      by (auto simp: bad)
    ultimately show "\<exists>invalid_files.
             collect_files lib (fs1 @ file # fs2) ([], []) = Inr (ps, invalid_files)
             \<and> set invalid_files = insert (name file) (set bad)"
      by blast
  qed
  have c: "(\<forall>g \<in> set (fs1 @ fs2). \<not> isl (process_csv lib g)) \<longrightarrow>
          (\<exists>invalid_files.
             collect_files lib (fs1 @ file # fs2) ([], [])
               = Inr (concat (map (file_records lib) (fs1 @ fs2)), invalid_files)
             \<and> name file \<in> set invalid_files)"
  proof
    assume o: "\<forall>g \<in> set (fs1 @ fs2). \<not> isl (process_csv lib g)"
    from none have recs: "file_records lib file = []"
      by (simp add: file_records_def)
    have "\<forall>g \<in> set (fs1 @ file # fs2). \<not> isl (process_csv lib g)"
      using o none by auto
    from collect_files_no_raise [OF this, of "[]" "[]"]
    have "collect_files lib (fs1 @ file # fs2) ([], [])
        = Inr (concat (map (file_records lib) (fs1 @ fs2)),
               map name (filter (\<lambda>g. file_records lib g = []) (fs1 @ file # fs2)))"
      by (simp add: recs)
    moreover have "name file \<in> set (map name (filter (\<lambda>g. file_records lib g = []) (fs1 @ file # fs2)))"
      by (simp add: recs)
    ultimately show "\<exists>invalid_files.
             collect_files lib (fs1 @ file # fs2) ([], [])
               = Inr (concat (map (file_records lib) (fs1 @ fs2)), invalid_files)
             \<and> name file \<in> set invalid_files"
      by blast
  qed
  from none a b c show ?thesis by blast
qed

theorem missing_column_file_is_skipped_witness:
  "process_csv example_lib thing_file = Inr None
   \<and> collect_files example_lib [widget_file, widget_file] ([], [])
       = Inr ([widget_record, widget_record], [])
   \<and> collect_files example_lib [widget_file, thing_file, widget_file] ([], [])
       = Inr ([widget_record, widget_record], [''thing.csv''])"
proof -
  have r: "read_csv example_lib thing_file = Inr thing_frame"
    by (simp add: example_lib_def thing_file_def)
  have m: "\<exists>col \<in> set required_columns. col \<notin> set (columns thing_frame)"
    by (simp add: required_columns_def thing_frame_def)
  have w: "collect_files example_lib ([widget_file] @ [widget_file]) ([], [])
       = Inr ([widget_record, widget_record], [])"
    by (simp add: example_widget)
  from missing_column_file_is_skipped [OF r m, of "[widget_file]" "[widget_file]"
      _ "[widget_record, widget_record]" "[]"] w
  obtain invalid_files where
    n: "process_csv example_lib thing_file = Inr None"
    and c: "collect_files example_lib ([widget_file] @ thing_file # [widget_file]) ([], [])
        = Inr ([widget_record, widget_record], invalid_files)"
    and s: "set invalid_files = insert (name thing_file) (set [])"
    by blast
  have nm: "name thing_file = ''thing.csv''"
    by (simp add: thing_file_def)
  have "collect_files example_lib [widget_file, thing_file, widget_file] ([], [])
       = Inr ([widget_record, widget_record], [''thing.csv''])"
    by (simp add: example_widget example_thing nm)
  with n w show ?thesis by simp
qed

text \<open>
  A file with the required columns and a row whose price or quantity is a non-numeric
  string makes \<open>process_csv\<close> raise; the loop of \<open>main\<close> has no handler, so the
  error ends the loop at that file, whatever files follow.
\<close>

lemma non_numeric_file_raises:
  assumes "read_csv lib file = Inr df"
    and "validate_csv df"
    and "r \<in> set (to_dict_records df)"
    and "non_numeric lib r"
    and "\<forall>g \<in> set fs1. \<not> isl (process_csv lib g)"
  shows "\<exists>e. process_csv lib file = Inl e
     \<and> collect_files lib (fs1 @ file # fs2) acc = Inl e"
proof -
  from process_csv_non_numeric [OF assms(1-4)] obtain e where
    e: "process_csv lib file = Inl e"
    by (cases "process_csv lib file") auto
  obtain ps bad where acc: "acc = (ps, bad)" by (cases acc)
  from collect_files_raise [OF assms(5) e] have
    "collect_files lib (fs1 @ file # fs2) acc = Inl e"
    by (simp add: acc)
  with e show ?thesis by blast
qed

text \<open>
  C3. The claim asks that a file with a non-numeric price fails on its own and does not
  block the other files of the batch. The code at a batch of the file \<open>gadget.csv\<close>,
  whose price is \<open>abc\<close>, followed by the valid file \<open>widget.csv\<close>: the valid file
  alone gives its record, the bad file alone raises ValueError, and the loop of
  \<open>main\<close> over the batch ends in that ValueError with no record collected. The
  sibling path does what the claim asks: behind the file \<open>thing.csv\<close>, which lacks
  required columns, the loop goes on and collects the record of the valid file.
\<close>

theorem coercion_failure_blocks_batch:
  "process_csv example_lib widget_file = Inr (Some [widget_record])
   \<and> process_csv example_lib gadget_file = Inl ValueError
   \<and> collect_files example_lib [gadget_file, widget_file] ([], []) = Inl ValueError
   \<and> collect_files example_lib [thing_file, widget_file] ([], [])
       = Inr ([widget_record], [''thing.csv''])"
proof -
  have nm: "name thing_file = ''thing.csv''"
    by (simp add: thing_file_def)
  show ?thesis
    by (simp add: example_widget example_gadget example_thing nm)
qed

section \<open>Properties of the product store and of the upload\<close>

lemma save_products_valid:
  "list_all (validates product_schema) docs \<Longrightarrow>
     save_products docs st =
       (st\<lparr>products_collection :=
             products_collection st
             @ map2 (\<lambda>d i. dict_set d ''_id'' (POid i)) docs
                 [next_oid st ..< next_oid st + length docs],
           next_oid := next_oid st + length docs\<rparr>,
        Inr (length docs))"
  by (simp add: save_products_def insert_many_products_def bind_err_def)

lemma save_products_invalid:
  "\<not> list_all (validates product_schema) docs \<Longrightarrow> save_products docs st = (st, Inl WriteError)"
  by (simp add: save_products_def insert_many_products_def bind_err_def)

lemma missing_field_invalid: "missing_field d \<Longrightarrow> \<not> validates product_schema d"
  by (auto simp: missing_field_def validates_def list_ex_iff list_all_iff)

lemma wrong_type_invalid:
  assumes "wrong_type d"
  shows "\<not> validates product_schema d"
proof
  assume v: "validates product_schema d"
  from assms obtain k p x where kp: "(k, p) \<in> set (properties product_schema)"
    and x: "map_of d k = Some x" and t: "\<not> has_bson_type (bsonType p) x"
    by (auto simp: wrong_type_def list_ex_iff split: option.splits)
  from v kp have "case map_of d k of None \<Rightarrow> True | Some v \<Rightarrow> property_ok p v"
    by (auto simp: validates_def list_all_iff)
  with x have "property_ok p x" by simp
  with t show False by (simp add: property_ok_def)
qed

lemma negative_price_invalid:
  assumes "case map_of d ''price'' of
             Some (PInt n) \<Rightarrow> n < 0
           | Some (PFloat (Finite q)) \<Rightarrow> q < 0
           | Some (PFloat NegInf) \<Rightarrow> True
           | _ \<Rightarrow> False"
  shows "\<not> validates product_schema d"
proof -
  from assms obtain v where v: "map_of d ''price'' = Some v" and m: "\<not> meets_minimum 0 v"
    by (auto simp: meets_minimum_def split: option.splits pyval.splits pyfloat.splits)
  then show ?thesis
    by (simp add: validates_def product_schema_def property_ok_def)
qed

lemma negative_quantity_invalid:
  assumes "case map_of d ''quantity'' of
             Some (PInt n) \<Rightarrow> n < 0
           | Some (PFloat (Finite q)) \<Rightarrow> q < 0
           | Some (PFloat NegInf) \<Rightarrow> True
           | _ \<Rightarrow> False"
  shows "\<not> validates product_schema d"
proof -
  from assms obtain v where v: "map_of d ''quantity'' = Some v" and m: "\<not> meets_minimum 0 v"
    by (auto simp: meets_minimum_def split: option.splits pyval.splits pyfloat.splits)
  then show ?thesis
    by (simp add: validates_def product_schema_def property_ok_def)
qed

lemma violates_invalid: "violates d \<Longrightarrow> \<not> validates product_schema d"
  unfolding violates_def negative_number_def
  using missing_field_invalid [of d] wrong_type_invalid [of d]
    negative_price_invalid [of d] negative_quantity_invalid [of d]
  by auto

lemma add_category_products:
  "add_category c st = Inr st1 \<Longrightarrow> products_collection st1 = products_collection st"
  by (auto simp: add_category_def insert_one_category_def
      split: option.splits list.splits if_splits)

lemma add_categories_products:
  "(add_categories cs st = Inr st1 \<longrightarrow> products_collection st1 = products_collection st)
   \<and> (add_categories cs st = Inl (e, st1) \<longrightarrow> products_collection st1 = products_collection st)"
proof (induction cs arbitrary: st)
  case Nil
  then show ?case by simp
next
  case (Cons c cs)
  show ?case
  proof (cases "add_category c st")
    case (Inl e')
    then show ?thesis by simp
  next
    case (Inr st0)
    with Cons.IH [of st0] add_category_products [OF Inr] show ?thesis by simp
  qed
qed

lemma register_categories_products:
  "(register_categories ps st = Inr st1 \<longrightarrow> products_collection st1 = products_collection st)
   \<and> (register_categories ps st = Inl (e, st1) \<longrightarrow> products_collection st1 = products_collection st)"
proof (induction ps arbitrary: st)
  case Nil
  then show ?case by simp
next
  case (Cons p ps)
  show ?case
  proof (cases "bind_err (dict_get p ''categories'') iter_values")
    case (Inl e')
    then show ?thesis by simp
  next
    case (Inr cs)
    show ?thesis
    proof (cases "add_categories cs st")
      case (Inl x)
      obtain e' st' where x: "x = (e', st')" by (cases x)
      with Inl add_categories_products [of cs st st' e'] \<open>bind_err _ _ = Inr cs\<close>
      show ?thesis by auto
    next
      case (Inr st0)
      with Cons.IH [of st0] add_categories_products [of cs st st0 e]
        \<open>bind_err _ _ = Inr cs\<close>
      show ?thesis by auto
    qed
  qed
qed

lemma upload_invalid:
  assumes "\<not> list_all (validates product_schema) prods"
  shows "(\<exists>e. snd (upload_all_products prods st) = Inl e)
     \<and> products_collection (fst (upload_all_products prods st)) = products_collection st"
proof (cases "register_categories prods st")
  case (Inl x)
  obtain e st1 where x: "x = (e, st1)" by (cases x)
  with Inl register_categories_products [of prods st st1 e] show ?thesis
    by (simp add: upload_all_products_def)
next
  case (Inr st1)
  with register_categories_products [of prods st st1] save_products_invalid [OF assms, of st1]
  show ?thesis
    by (simp add: upload_all_products_def)
qed

lemma example_widget_valid: "validates product_schema widget_record"
  by (simp add: validates_def product_schema_def property_ok_def meets_minimum_def
      has_bson_type_def widget_record_def)

text \<open>
  C4. When some record of the batch violates the declared schema (a required field is
  missing, a type is wrong, a price or quantity is negative) or otherwise fails
  \<open>product_schema\<close>, \<open>save_products\<close> ends in the error of the storage layer and
  the store after the call is the store before it: none of the records is stored; in
  the upload of \<open>main\<close> the error reaches the caller and the products collection is
  as before. When every record validates, \<open>save_products\<close> returns the number of
  records of the batch, and the store after the call holds the documents it held
  before, followed by the records of the batch in order, each under a fresh \<open>_id\<close>.
\<close>

theorem save_products_all_or_nothing:
  "((\<exists>d \<in> set prods. violates d \<or> \<not> validates product_schema d) \<longrightarrow>
       save_products prods st = (st, Inl WriteError)
       \<and> (\<exists>e. snd (upload_all_products prods st) = Inl e)
       \<and> products_collection (fst (upload_all_products prods st)) = products_collection st)
   \<and> ((\<forall>d \<in> set prods. validates product_schema d) \<longrightarrow>
       save_products prods st =
         (st\<lparr>products_collection :=
               products_collection st
               @ map2 (\<lambda>d i. dict_set d ''_id'' (POid i)) prods
                   [next_oid st ..< next_oid st + length prods],
             next_oid := next_oid st + length prods\<rparr>,
          Inr (length prods)))"
proof -
  have a: "(\<exists>d \<in> set prods. violates d \<or> \<not> validates product_schema d) \<longrightarrow>
       save_products prods st = (st, Inl WriteError)
       \<and> (\<exists>e. snd (upload_all_products prods st) = Inl e)
       \<and> products_collection (fst (upload_all_products prods st)) = products_collection st"
  proof
    assume "\<exists>d \<in> set prods. violates d \<or> \<not> validates product_schema d"
    then have n: "\<not> list_all (validates product_schema) prods"
      using violates_invalid by (auto simp: list_all_iff)
    from save_products_invalid [OF n, of st] upload_invalid [OF n, of st]
    show "save_products prods st = (st, Inl WriteError)
       \<and> (\<exists>e. snd (upload_all_products prods st) = Inl e)
       \<and> products_collection (fst (upload_all_products prods st)) = products_collection st"
      by blast
  qed
  have b: "(\<forall>d \<in> set prods. validates product_schema d) \<longrightarrow>
       save_products prods st =
         (st\<lparr>products_collection :=
               products_collection st
               @ map2 (\<lambda>d i. dict_set d ''_id'' (POid i)) prods
                   [next_oid st ..< next_oid st + length prods],
             next_oid := next_oid st + length prods\<rparr>,
          Inr (length prods))"
    using save_products_valid [of prods st] by (simp add: list_all_iff)
  from a b show ?thesis by blast
qed

lemma example_cheap_violates: "violates cheap_record"
  by (simp add: violates_def negative_number_def cheap_record_def)

theorem save_products_all_or_nothing_witness:
  "save_products [widget_record, cheap_record, widget_record] empty_store
     = (empty_store, Inl WriteError)
   \<and> save_products [widget_record, widget_record] empty_store
     = (\<lparr>products_collection =
           [widget_record @ [(''_id'', POid 0)], widget_record @ [(''_id'', POid 1)]],
         categories_collection = [], next_oid = 2\<rparr>, Inr 2)"
proof -
  have v: "\<forall>d \<in> set [widget_record, widget_record]. validates product_schema d"
    by (simp add: example_widget_valid)
  have p: "\<exists>d \<in> set [widget_record, cheap_record, widget_record].
      violates d \<or> \<not> validates product_schema d"
    by (simp add: example_cheap_violates)
  from save_products_all_or_nothing
    [of "[widget_record, cheap_record, widget_record]" empty_store] p
  have a: "save_products [widget_record, cheap_record, widget_record] empty_store
     = (empty_store, Inl WriteError)"
    by blast
  from save_products_all_or_nothing [of "[widget_record, widget_record]" empty_store] v
  have "save_products [widget_record, widget_record] empty_store =
         (empty_store\<lparr>products_collection :=
               products_collection empty_store
               @ map2 (\<lambda>d i. dict_set d ''_id'' (POid i)) [widget_record, widget_record]
                   [next_oid empty_store ..<
                    next_oid empty_store + length [widget_record, widget_record]],
             next_oid := next_oid empty_store + length [widget_record, widget_record]\<rparr>,
          Inr (length [widget_record, widget_record]))"
    by blast
  moreover have "[0 ..< Suc (Suc 0)] = [0, Suc 0]"
    by (simp add: upt_rec)
  ultimately have b: "save_products [widget_record, widget_record] empty_store
     = (\<lparr>products_collection =
           [widget_record @ [(''_id'', POid 0)], widget_record @ [(''_id'', POid 1)]],
         categories_collection = [], next_oid = 2\<rparr>, Inr 2)"
    by (simp add: empty_store_def widget_record_def dict_set_def)
  from a b show ?thesis by blast
qed

lemma add_category_ok:
  assumes "list_all (validates categories_schema) (categories_collection st)"
    and "add_category c st = Inr st1"
  shows "list_all (validates categories_schema) (categories_collection st1)
     \<and> c \<in> set (category_names st1)
     \<and> set (category_names st) \<subseteq> set (category_names st1)
     \<and> products_collection st1 = products_collection st"
proof (cases "find_one_eq ''name'' c (categories_collection st)")
  case None
  with assms(2) have ins: "insert_one_category [(''name'', c)] st = Inr st1"
    by (simp add: add_category_def)
  then obtain s where c: "c = PStr s"
    by (auto simp: insert_one_category_def validates_categories split: if_splits)
  from ins have st1: "st1 = st\<lparr>categories_collection :=
        categories_collection st @ [[(''name'', PStr s), (''_id'', POid (next_oid st))]],
        next_oid := Suc (next_oid st)\<rparr>"
    by (auto simp: insert_one_category_def c dict_set_def split: if_splits)
  show ?thesis
    using assms(1) by (auto simp: st1 c validates_categories category_names_def)
next
  case (Some d)
  then obtain r where r: "filter (matches (\<lambda>p. None) (QEq ''name'' c)) (categories_collection st) = d # r"
    by (auto simp: find_one_eq_def split: list.splits)
  then have "d \<in> set (filter (matches (\<lambda>p. None) (QEq ''name'' c)) (categories_collection st))"
    by (metis list.set_intros(1))
  then have din: "d \<in> set (categories_collection st)"
    and m: "matches (\<lambda>p. None) (QEq ''name'' c) d"
    by simp_all
  from din assms(1) have "validates categories_schema d"
    by (simp add: list_all_iff)
  then obtain s where s: "map_of d ''name'' = Some (PStr s)"
    by (auto simp: validates_categories)
  with m have "value_matches (PStr s) c" by simp
  then have cs: "c = PStr s"
    by (cases c) (auto simp: value_matches_def)
  from s have "d \<noteq> []" by auto
  with Some assms(2) have eq: "st1 = st"
    by (cases d) (simp_all add: add_category_def)
  have "PStr s \<in> set (category_names st)"
    using din s by (force simp: category_names_def)
  with eq cs assms(1) show ?thesis by simp
qed

lemma add_categories_ok:
  assumes "list_all (validates categories_schema) (categories_collection st)"
    and "add_categories cs st = Inr st1"
  shows "list_all (validates categories_schema) (categories_collection st1)
     \<and> set cs \<subseteq> set (category_names st1)
     \<and> set (category_names st) \<subseteq> set (category_names st1)
     \<and> products_collection st1 = products_collection st"
  using assms
proof (induction cs arbitrary: st)
  case Nil
  then show ?case by simp
next
  case (Cons c cs)
  from Cons.prems(2) obtain st0 where a: "add_category c st = Inr st0"
    and b: "add_categories cs st0 = Inr st1"
    by (auto split: sum.splits)
  from add_category_ok [OF Cons.prems(1) a] Cons.IH [OF _ b]
  show ?case by auto
qed

lemma register_categories_ok:
  assumes "list_all (validates categories_schema) (categories_collection st)"
    and "register_categories ps st = Inr st1"
  shows "list_all (validates categories_schema) (categories_collection st1)
     \<and> (\<forall>p \<in> set ps. set (category_labels p) \<subseteq> set (category_names st1))
     \<and> set (category_names st) \<subseteq> set (category_names st1)
     \<and> products_collection st1 = products_collection st"
  using assms
proof (induction ps arbitrary: st)
  case Nil
  then show ?case by simp
next
  case (Cons p ps)
  from Cons.prems(2) obtain cs st0 where
    it: "bind_err (dict_get p ''categories'') iter_values = Inr cs"
    and a: "add_categories cs st = Inr st0"
    and b: "register_categories ps st0 = Inr st1"
    by (auto split: sum.splits)
  from it have lab: "set (category_labels p) \<subseteq> set cs"
    by (auto simp: bind_err_def dict_get_def iter_values_def category_labels_def
        split: option.splits pyval.splits)
  from add_categories_ok [OF Cons.prems(1) a] Cons.IH [OF _ b] lab
  show ?case by auto
qed

lemma save_products_names:
  "save_products ps st1 = (st2, Inr n) \<Longrightarrow> category_names st2 = category_names st1"
  by (auto simp: save_products_def insert_many_products_def bind_err_def category_names_def
      split: if_splits)

text \<open>
  C9. On a store whose Category records conform to \<open>categories_schema\<close>, a successful
  upload has first run \<open>add_category\<close> for every label of every product and only then
  \<open>save_products\<close>: every label of every product of the batch is the name of a Category
  record in the store handed to \<open>save_products\<close>, and in the store after the upload.
\<close>

theorem upload_registers_categories_first:
  assumes "list_all (validates categories_schema) (categories_collection st)"
    and "upload_all_products all_products st = (st2, Inr uploaded_count)"
  shows "\<exists>st1. register_categories all_products st = Inr st1
     \<and> save_products all_products st1 = (st2, Inr uploaded_count)
     \<and> (\<forall>p \<in> set all_products. \<forall>c \<in> set (category_labels p).
          c \<in> set (category_names st1) \<and> c \<in> set (category_names st2))"
proof -
  from assms(2) obtain st1 where r: "register_categories all_products st = Inr st1"
    and s: "save_products all_products st1 = (st2, Inr uploaded_count)"
    by (auto simp: upload_all_products_def split: sum.splits prod.splits)
  from register_categories_ok [OF assms(1) r]
  have "\<forall>p \<in> set all_products. set (category_labels p) \<subseteq> set (category_names st1)"
    by blast
  with save_products_names [OF s] r s show ?thesis
    by auto
qed

theorem upload_registers_categories_first_witness:
  "upload_all_products [widget_record] empty_store =
     (\<lparr>products_collection = [widget_record @ [(''_id'', POid 2)]],
       categories_collection =
         [[(''name'', PStr ''a''), (''_id'', POid 0)], [(''name'', PStr ''b''), (''_id'', POid 1)]],
       next_oid = 3\<rparr>, Inr 1)
   \<and> register_categories [widget_record] empty_store =
       Inr \<lparr>products_collection = [],
         categories_collection =
           [[(''name'', PStr ''a''), (''_id'', POid 0)], [(''name'', PStr ''b''), (''_id'', POid 1)]],
         next_oid = 2\<rparr>"
proof -
  let ?st1 = "\<lparr>products_collection = [],
         categories_collection =
           [[(''name'', PStr ''a''), (''_id'', POid 0)], [(''name'', PStr ''b''), (''_id'', POid 1)]],
         next_oid = 2\<rparr>"
  let ?st2 = "\<lparr>products_collection = [widget_record @ [(''_id'', POid 2)]],
       categories_collection =
         [[(''name'', PStr ''a''), (''_id'', POid 0)], [(''name'', PStr ''b''), (''_id'', POid 1)]],
       next_oid = 3\<rparr>"
  have reg: "register_categories [widget_record] empty_store = Inr ?st1"
    by (simp add: widget_record_def empty_store_def bind_err_def dict_get_def iter_values_def
        add_category_def find_one_eq_def insert_one_category_def validates_categories
        dict_set_def value_matches_def)
  have sav: "save_products [widget_record] ?st1 = (?st2, Inr 1)"
    by (simp add: save_products_valid example_widget_valid) (simp add: widget_record_def dict_set_def)
  have up: "upload_all_products [widget_record] empty_store = (?st2, Inr 1)"
    by (simp only: upload_all_products_def reg sav sum.case)
  have h: "list_all (validates categories_schema) (categories_collection empty_store)"
    by (simp add: empty_store_def)
  from upload_registers_categories_first [OF h up] reg up show ?thesis
    by simp
qed

section \<open>Properties of the search\<close>

lemma bson_eq_PStr [simp]: "bson_eq y (PStr s) \<longleftrightarrow> y = PStr s"
  by (cases y) auto

lemma value_matches_str:
  "value_matches x (PStr s) \<longleftrightarrow> x = PStr s \<or> (\<exists>xs. x = PList xs \<and> PStr s \<in> set xs)"
  by (cases x) (auto simp: value_matches_def list_ex_iff)

lemma matches_category_in:
  "matches rx (QIn ''category'' [PStr q]) d \<longleftrightarrow> category_is q d"
  by (auto simp: category_is_def value_matches_str split: option.splits pyval.splits)

lemma matches_regex:
  "rx q = Some m \<Longrightarrow> matches rx (QRegex f q) d \<longleftrightarrow> field_matches_pattern m f d"
  by (simp add: field_matches_pattern_def)

lemma search_filter:
  assumes "rx q = Some m"
  shows "search_products rx q st = Inr (filter (search_condition m q) (products_collection st))"
proof -
  have ok: "query_ok rx (QOr [QRegex ''product_name'' q, QRegex ''description'' q,
      QIn ''category'' [PStr q]])"
    using assms by simp
  have "matches rx (QOr [QRegex ''product_name'' q, QRegex ''description'' q,
      QIn ''category'' [PStr q]]) = search_condition m q"
  proof
    fix d
    show "matches rx (QOr [QRegex ''product_name'' q, QRegex ''description'' q,
        QIn ''category'' [PStr q]]) d = search_condition m q d"
      using assms matches_regex [of rx q m "''product_name''" d]
        matches_regex [of rx q m "''description''" d] matches_category_in [of rx q d]
      by (simp add: search_condition_def del: matches.simps(3,4))
  qed
  with ok show ?thesis
    by (simp add: search_products_def collection_find_def del: matches.simps query_ok.simps)
qed

text \<open>
  C5, as the code has it. The term is handed to the storage layer as a regular
  expression. When it compiles, to the case-insensitive pattern \<open>m\<close>,
  \<open>search_products\<close> returns exactly the stored records that satisfy one of the three
  conditions, in storage order: \<open>m\<close> matches \<open>product_name\<close>, \<open>m\<close> matches
  \<open>description\<close>, or the term is a member of the field \<open>category\<close>; when no record
  satisfies any of them the result is empty. When the term does not compile the query
  fails.
\<close>

theorem search_products_is_or_of_three:
  "(rx term = Some m \<longrightarrow>
      search_products rx term st
        = Inr (filter (\<lambda>d. field_matches_pattern m ''product_name'' d
                         \<or> field_matches_pattern m ''description'' d
                         \<or> category_is term d) (products_collection st))
      \<and> ((\<forall>d \<in> set (products_collection st).
             \<not> field_matches_pattern m ''product_name'' d
             \<and> \<not> field_matches_pattern m ''description'' d
             \<and> \<not> category_is term d)
           \<longrightarrow> search_products rx term st = Inr []))
   \<and> (rx term = None \<longrightarrow> search_products rx term st = Inl OperationFailure)"
proof -
  have eq: "search_condition m term = (\<lambda>d. field_matches_pattern m ''product_name'' d
                        \<or> field_matches_pattern m ''description'' d
                        \<or> category_is term d)"
    by (rule ext) (simp add: search_condition_def)
  have a: "rx term = Some m \<longrightarrow> search_products rx term st
       = Inr (filter (\<lambda>d. field_matches_pattern m ''product_name'' d
                        \<or> field_matches_pattern m ''description'' d
                        \<or> category_is term d) (products_collection st))"
    using search_filter [of rx "term" m st] by (simp add: eq)
  have b: "rx term = None \<longrightarrow> search_products rx term st = Inl OperationFailure"
    by (simp add: search_products_def collection_find_def)
  from a b show ?thesis
    by (auto simp: filter_empty_conv)
qed

text \<open>
  The claim C5 as stated fails for the search terms that are not regular expressions:
  the term \<open>(\<close> gives an error of the storage layer, not a sequence of records.
\<close>

theorem search_products_bad_pattern_counterexample:
  "search_products example_rx ''('' widget_store = Inl OperationFailure"
  by (simp add: search_products_def collection_find_def example_rx_def is_plain_def)

theorem search_products_is_or_of_three_witness:
  "search_products example_rx ''wid'' widget_store = Inr [widget_record @ [(''_id'', POid 0)]]
   \<and> search_products example_rx ''zzz'' widget_store = Inr []"
proof -
  have w: "example_rx ''wid'' = Some (ci_contains ''wid'')"
    by (simp add: example_rx_def is_plain_def)
  have z: "example_rx ''zzz'' = Some (ci_contains ''zzz'')"
    by (simp add: example_rx_def is_plain_def)
  have a: "field_matches_pattern (ci_contains ''wid'') ''product_name'' (widget_record @ [(''_id'', POid 0)])"
    by (simp add: field_matches_pattern_def widget_record_def regex_matches_def lower_def)
  have b: "\<forall>d \<in> set (products_collection widget_store).
            \<not> field_matches_pattern (ci_contains ''zzz'') ''product_name'' d
            \<and> \<not> field_matches_pattern (ci_contains ''zzz'') ''description'' d
            \<and> \<not> category_is ''zzz'' d"
    by (simp add: widget_store_def field_matches_pattern_def widget_record_def regex_matches_def
        lower_def category_is_def)
  from search_products_is_or_of_three [of example_rx "''wid''" "ci_contains ''wid''" widget_store] w
  have "search_products example_rx ''wid'' widget_store
      = Inr (filter (\<lambda>d. field_matches_pattern (ci_contains ''wid'') ''product_name'' d
                         \<or> field_matches_pattern (ci_contains ''wid'') ''description'' d
                         \<or> category_is ''wid'' d) (products_collection widget_store))"
    by blast
  with a have "search_products example_rx ''wid'' widget_store = Inr [widget_record @ [(''_id'', POid 0)]]"
    by (simp add: widget_store_def)
  moreover from search_products_is_or_of_three [of example_rx "''zzz''" "ci_contains ''zzz''" widget_store] z b
  have "search_products example_rx ''zzz'' widget_store = Inr []"
    by blast
  ultimately show ?thesis by blast
qed

lemma map_of_zip_absent: "k \<notin> set xs \<Longrightarrow> map_of (zip xs ys) k = None"
proof -
  assume "k \<notin> set xs"
  then have "k \<notin> fst ` set (zip xs ys)"
    by (auto dest: set_zip_leftD)
  then show ?thesis
    by (simp add: map_of_eq_None_iff)
qed

lemma normalize_keeps_other:
  assumes "normalize_product lib r = Inr d"
    and "k \<notin> {''price'', ''quantity'', ''categories''}"
  shows "map_of d k = map_of r k"
  using assms
  by (auto simp: normalize_product_def bind_err_def map_of_dict_set split: sum.splits)

lemma process_csv_rows:
  assumes "read_csv lib file = Inr df"
    and "process_csv lib file = Inr (Some prods)"
  shows "list_all2 (\<lambda>r d. normalize_product lib r = Inr d) (to_dict_records df) prods"
  using assms
  by (auto simp: process_csv_def bind_err_def those_sum_map_Inr split: if_splits sum.splits)

lemma no_category_column:
  assumes "read_csv lib file = Inr df"
    and "''category'' \<notin> set (columns df)"
    and "process_csv lib file = Inr (Some prods)"
    and "d \<in> set prods"
  shows "map_of d ''category'' = None"
proof -
  have all2: "list_all2 (\<lambda>r d. normalize_product lib r = Inr d) (to_dict_records df) prods"
    using assms(1,3) by (rule process_csv_rows)
  from assms(4) obtain j where j: "j < length prods" and dj: "prods ! j = d"
    by (auto simp: in_set_conv_nth)
  from all2 have len: "length (to_dict_records df) = length prods"
    by (rule list_all2_lengthD)
  from all2 j dj have n: "normalize_product lib (to_dict_records df ! j) = Inr d"
    by (auto simp: list_all2_conv_all_nth)
  from j len have r: "to_dict_records df ! j \<in> set (to_dict_records df)"
    by simp
  define r0 where "r0 = to_dict_records df ! j"
  from r n have r: "r0 \<in> set (to_dict_records df)" and n: "normalize_product lib r0 = Inr d"
    by (simp_all add: r0_def)
  from r assms(2) have "map_of r0 ''category'' = None"
    by (auto simp: to_dict_records_def map_of_zip_absent)
  with normalize_keeps_other [OF n, of "''category''"] show ?thesis
    by simp
qed

text \<open>
  C6, as the code has it. A record ingested from a CSV file that has no column named
  \<open>category\<close> has no field \<open>category\<close>, before and after the storage layer has
  added its \<open>_id\<close>, so the category condition of \<open>search_products\<close> matches it for no
  term.
\<close>

theorem category_search_misses_ingested:
  assumes "read_csv lib file = Inr df"
    and "''category'' \<notin> set (columns df)"
    and "process_csv lib file = Inr (Some prods)"
    and "d \<in> set prods"
  shows "\<not> matches rx (QIn ''category'' [PStr term]) d
     \<and> \<not> matches rx (QIn ''category'' [PStr term]) (dict_set d ''_id'' (POid i))
     \<and> \<not> category_is term d"
proof -
  have n: "map_of d ''category'' = None"
    using assms by (rule no_category_column)
  then have "map_of (dict_set d ''_id'' (POid i)) ''category'' = None"
    by (simp add: map_of_dict_set)
  with n show ?thesis
    by (simp add: category_is_def)
qed

theorem category_search_misses_ingested_witness:
  "process_csv example_lib widget_file = Inr (Some [widget_record])
   \<and> \<not> matches example_rx (QIn ''category'' [PStr ''a'']) widget_record
   \<and> \<not> matches example_rx (QIn ''category'' [PStr ''a'']) (dict_set widget_record ''_id'' (POid 0))"
proof -
  have r: "read_csv example_lib widget_file = Inr widget_frame"
    by (simp add: example_lib_def widget_file_def)
  have c: "''category'' \<notin> set (columns widget_frame)"
    by (simp add: widget_frame_def)
  have i: "widget_record \<in> set [widget_record]"
    by simp
  from category_search_misses_ingested [OF r c example_widget i, of example_rx "''a''" 0]
    example_widget
  show ?thesis by blast
qed

lemma example_toy:
  "process_csv example_lib toy_file = Inr (Some [toy_record])"
  by (simp add: process_csv_def example_lib_def toy_file_def toy_frame_def bind_err_def
      validate_csv_def required_columns_def to_dict_records_def normalize_product_def
      dict_get_def dict_set_def py_float_def py_int_def split_categories_def strip_def
      is_space_def float_of_int_def round_to_double_def bit_length.simps Let_def
      toy_record_def)

text \<open>
  The claim C6 as stated fails: a CSV file with a sixth column \<open>category\<close> is
  ingested into a record with the scalar field \<open>category\<close>, which the category
  condition matches although neither pattern condition does.
\<close>

theorem category_search_reaches_ingested_counterexample:
  "process_csv example_lib toy_file = Inr (Some [toy_record])
   \<and> matches example_rx (QIn ''category'' [PStr ''toys'']) toy_record
   \<and> \<not> matches example_rx (QRegex ''product_name'' ''toys'') toy_record
   \<and> \<not> matches example_rx (QRegex ''description'' ''toys'') toy_record
   \<and> search_products example_rx ''toys''
        \<lparr>products_collection = [toy_record], categories_collection = [], next_oid = 0\<rparr>
      = Inr [toy_record]"
proof -
  have rx: "example_rx ''toys'' = Some (ci_contains ''toys'')"
    by (simp add: example_rx_def is_plain_def)
  have a: "matches example_rx (QIn ''category'' [PStr ''toys'']) toy_record"
    by (simp add: toy_record_def value_matches_def)
  have b: "\<not> matches example_rx (QRegex ''product_name'' ''toys'') toy_record"
    by (simp add: rx toy_record_def regex_matches_def lower_def)
  have c: "\<not> matches example_rx (QRegex ''description'' ''toys'') toy_record"
    by (simp add: rx toy_record_def regex_matches_def lower_def)
  have d: "search_products example_rx ''toys''
        \<lparr>products_collection = [toy_record], categories_collection = [], next_oid = 0\<rparr>
      = Inr [toy_record]"
    using a by (simp add: search_products_def collection_find_def rx)
  from example_toy a b c d show ?thesis by blast
qed

section \<open>Properties of productCategorization.py\<close>
















end
